theory Spec2Isabelle
  imports Complex_Main "HOL-Library.Sublist" "HOL-Library.AList" "HOL-Library.Multiset"
begin

section \<open>Python values and exceptions\<close>

text \<open>
  The extractor hands back untyped, JSON-like data, and the code tests it with
  \<^verbatim>\<open>isinstance\<close>, \<^verbatim>\<open>dict.get\<close>, \<^verbatim>\<open>or\<close> and truthiness. The values are
  therefore kept dynamic. A dict is an association list with string keys; the first binding
  of a key is the one a lookup sees.
\<close>

datatype pyval =
    PNone
  | PBool bool
  | PInt int
  | PStr string
  | PList "pyval list"
  | PDict "(string \<times> pyval) list"

text \<open>
  Every \<^verbatim>\<open>raise\<close> that can reach a caller is a value. \<open>OSError\<close> is the plain
  \<^verbatim>\<open>OSError\<close> of a refusal by the operating system for which Python has no subclass,
  such as a name that is too long. \<open>ExtractorError\<close> and \<open>ArchiveError\<close> stand for
  whatever the two external collaborators raise; the string is their message.
\<close>

datatype error =
    AttributeError
  | KeyError
  | TypeError
  | ValueError
  | FileNotFoundError
  | FileExistsError
  | NotADirectoryError
  | IsADirectoryError
  | OSError
  | ExtractorError string
  | ArchiveError string

fun truthy :: "pyval \<Rightarrow> bool" where
  "truthy PNone = False"
| "truthy (PBool b) = b"
| "truthy (PInt i) = (i \<noteq> 0)"
| "truthy (PStr s) = (s \<noteq> [])"
| "truthy (PList xs) = (xs \<noteq> [])"
| "truthy (PDict kvs) = (kvs \<noteq> [])"

definition py_or :: "pyval \<Rightarrow> pyval \<Rightarrow> pyval" where
  \<comment> \<open>\<^verbatim>\<open>a or b\<close>: the first operand when it is truthy, else the second.\<close>
  "py_or a b = (if truthy a then a else b)"

definition dict_get :: "(string \<times> pyval) list \<Rightarrow> string \<Rightarrow> pyval" where
  \<comment> \<open>\<^verbatim>\<open>d.get(k)\<close>: \<^verbatim>\<open>None\<close> for a missing key.\<close>
  "dict_get d k = (case map_of d k of None \<Rightarrow> PNone | Some v \<Rightarrow> v)"

definition dict_item :: "(string \<times> pyval) list \<Rightarrow> string \<Rightarrow> error + pyval" where
  \<comment> \<open>\<^verbatim>\<open>d[k]\<close>: raises for a missing key.\<close>
  "dict_item d k = (case map_of d k of None \<Rightarrow> Inl KeyError | Some v \<Rightarrow> Inr v)"

fun py_iter :: "pyval \<Rightarrow> error + pyval list" where
  \<comment> \<open>What a \<^verbatim>\<open>for\<close> loop or a comprehension sees: the items of a list, the
      characters of a string, the keys of a dict; the other values are not iterable.\<close>
  "py_iter (PList xs) = Inr xs"
| "py_iter (PStr s) = Inr (map (\<lambda>c. PStr [c]) s)"
| "py_iter (PDict kvs) = Inr (map (\<lambda>kv. PStr (fst kv)) kvs)"
| "py_iter _ = Inl TypeError"

section \<open>Data model\<close>

text \<open>
  \<^verbatim>\<open>Track\<close> and \<^verbatim>\<open>Playlist\<close> are the dataclasses of the package. A dataclass
  does not check its field types, so the fields hold whatever the extractor delivered.
\<close>

record Track =
  track_id :: pyval
  track_title :: pyval
  track_artist :: pyval
  track_url :: pyval

record Playlist =
  playlist_id :: pyval
  playlist_title :: pyval
  playlist_tracks :: "Track list"

section \<open>Paths and the file system\<close>

text \<open>
  A path is the list of its components below the root; \<^verbatim>\<open>output_dir\<close> is given
  resolved and absolute, as \<^verbatim>\<open>Path(output_dir).resolve()\<close> leaves it. The operations
  are those of \<^verbatim>\<open>pathlib\<close> on Linux (CPython 3.8 to 3.12): joining a string splits it
  at \<^verbatim>\<open>/\<close>, drops empty and \<^verbatim>\<open>.\<close> components and lets an absolute right operand
  replace the left one; the suffix of a name starts at its last dot, unless that dot is
  the first or the last character. These operations are lexical: a component \<^verbatim>\<open>..\<close>
  stays in the path until the file system resolves it.
\<close>

type_synonym path = "string list"

fun split_sep :: "string \<Rightarrow> string list" where
  "split_sep [] = [[]]"
| "split_sep (c # cs) =
     (if c = CHR ''/'' then [] # split_sep cs
      else (case split_sep cs of [] \<Rightarrow> [[c]] | w # ws \<Rightarrow> (c # w) # ws))"

definition path_parts :: "string \<Rightarrow> path" where
  "path_parts s = filter (\<lambda>c. c \<noteq> [] \<and> c \<noteq> ''.'') (split_sep s)"

definition joinpath :: "path \<Rightarrow> string \<Rightarrow> path" where
  \<comment> \<open>\<^verbatim>\<open>p / s\<close>\<close>
  "joinpath p s = (if s \<noteq> [] \<and> hd s = CHR ''/'' then path_parts s else p @ path_parts s)"

definition path_name :: "path \<Rightarrow> string" where
  "path_name p = (if p = [] then [] else last p)"

definition name_split :: "string \<Rightarrow> string \<times> string" where
  \<comment> \<open>stem and suffix of a final component; \<open>k\<close> counts the characters after the last dot\<close>
  "name_split name =
     (let k = length (takeWhile (\<lambda>c. c \<noteq> CHR ''.'') (rev name))
      in if k = length name \<or> k = 0 \<or> Suc k = length name then (name, [])
         else (take (length name - Suc k) name, drop (length name - Suc k) name))"

definition stem :: "path \<Rightarrow> string" where
  "stem p = fst (name_split (path_name p))"

definition with_suffix :: "path \<Rightarrow> string \<Rightarrow> error + path" where
  \<comment> \<open>called with \<^verbatim>\<open>".mp3"\<close> only, a suffix \<^verbatim>\<open>pathlib\<close> accepts; an empty name
      is refused\<close>
  "with_suffix p ext =
     (if path_name p = [] then Inl ValueError
      else Inr (butlast p @ [fst (name_split (path_name p)) @ ext]))"

text \<open>
  The file system is the list of its entries, in the order a directory listing reports
  them, each under its canonical path; the root is always a directory and has no entry.
  The code never reads a file, so a file carries only what the archival step needs:
  whether it is a media file or an archive, and the members of an archive.

  A path is resolved the way the kernel walks it. A character NUL makes Python refuse the
  path with \<^verbatim>\<open>ValueError\<close> before any system call. A path of \<open>PATH_MAX\<close> bytes or more
  and a component of more than \<open>NAME_MAX\<close> bytes are refused with \<^verbatim>\<open>ENAMETOOLONG\<close>, a
  plain \<^verbatim>\<open>OSError\<close>. A component \<^verbatim>\<open>..\<close> steps to the parent. Every component but
  the last has to be a directory. Permissions and symbolic links are not represented.
\<close>

datatype node = Dir | Media | Archive "path list"

type_synonym filesystem = "(path \<times> node) list"

definition NAME_MAX :: nat where
  "NAME_MAX = 255"

definition PATH_MAX :: nat where
  "PATH_MAX = 4096"

definition node_at :: "filesystem \<Rightarrow> path \<Rightarrow> node option" where
  "node_at fsys q = (if q = [] then Some Dir else map_of fsys q)"

definition has_nul :: "path \<Rightarrow> bool" where
  "has_nul p = list_ex (\<lambda>c. CHR 0x00 \<in> set c) p"

definition path_length :: "path \<Rightarrow> nat" where
  \<comment> \<open>the length of the path as a string, \<^verbatim>\<open>/a/b\<close>\<close>
  "path_length p = (if p = [] then 1 else sum_list (map (\<lambda>c. Suc (length c)) p))"

fun walk :: "filesystem \<Rightarrow> path \<Rightarrow> path \<Rightarrow> error + path" where
  \<comment> \<open>from the directory \<open>cur\<close> along the components left\<close>
  "walk fsys cur [] = Inr cur"
| "walk fsys cur (c # cs) =
     (if c = ''..'' then walk fsys (butlast cur) cs
      else if NAME_MAX < length c then Inl OSError
      else if cs = [] then Inr (cur @ [c])
      else (case node_at fsys (cur @ [c]) of
              None \<Rightarrow> Inl FileNotFoundError
            | Some Dir \<Rightarrow> walk fsys (cur @ [c]) cs
            | Some _ \<Rightarrow> Inl NotADirectoryError))"

definition resolve :: "filesystem \<Rightarrow> path \<Rightarrow> error + path" where
  \<comment> \<open>the canonical path a path as written leads to; the entry there may be missing\<close>
  "resolve fsys p =
     (if has_nul p then Inl ValueError
      else if PATH_MAX \<le> path_length p then Inl OSError
      else walk fsys [] p)"

definition path_exists :: "filesystem \<Rightarrow> path \<Rightarrow> error + bool" where
  \<comment> \<open>\<^verbatim>\<open>Path.exists\<close>: false for \<^verbatim>\<open>ENOENT\<close>, \<^verbatim>\<open>ENOTDIR\<close> and \<^verbatim>\<open>ValueError\<close>; any
      other \<^verbatim>\<open>OSError\<close> is raised again\<close>
  "path_exists fsys p =
     (case resolve fsys p of
        Inl e \<Rightarrow> (if e = OSError then Inl OSError else Inr False)
      | Inr q \<Rightarrow> Inr (node_at fsys q \<noteq> None))"

definition iterdir :: "filesystem \<Rightarrow> path \<Rightarrow> error + path list" where
  \<comment> \<open>the entries of the directory, each as the path as written joined with its name\<close>
  "iterdir fsys p =
     (case resolve fsys p of
        Inl e \<Rightarrow> Inl e
      | Inr q \<Rightarrow>
          (case node_at fsys q of
             None \<Rightarrow> Inl FileNotFoundError
           | Some Dir \<Rightarrow>
               Inr (map (\<lambda>r. p @ [last r])
                      (filter (\<lambda>r. r \<noteq> [] \<and> butlast r = q) (map fst fsys)))
           | Some _ \<Rightarrow> Inl NotADirectoryError))"

fun mkdirs :: "path list \<Rightarrow> filesystem \<Rightarrow> (error + unit) \<times> filesystem" where
  \<comment> \<open>the ancestors from the top; what was made before an error stays\<close>
  "mkdirs [] fsys = (Inr (), fsys)"
| "mkdirs (q # qs) fsys =
     (case resolve fsys q of
        Inl e \<Rightarrow> (Inl e, fsys)
      | Inr r \<Rightarrow>
          (case node_at fsys r of
             None \<Rightarrow> mkdirs qs (fsys @ [(r, Dir)])
           | Some Dir \<Rightarrow> mkdirs qs fsys
           | Some _ \<Rightarrow> (Inl (if qs = [] then FileExistsError else NotADirectoryError), fsys)))"

definition mkdir_parents :: "filesystem \<Rightarrow> path \<Rightarrow> (error + unit) \<times> filesystem" where
  \<comment> \<open>\<^verbatim>\<open>p.mkdir(parents=True, exist_ok=True)\<close>: every missing ancestor is made; a path
      the system refuses as a whole is refused before anything is made\<close>
  "mkdir_parents fsys p =
     (if has_nul p then (Inl ValueError, fsys)
      else if PATH_MAX \<le> path_length p then (Inl OSError, fsys)
      else mkdirs (tl (prefixes p)) fsys)"

definition mkdir_exist_ok :: "filesystem \<Rightarrow> path \<Rightarrow> error + filesystem" where
  \<comment> \<open>\<^verbatim>\<open>p.mkdir(exist_ok=True)\<close>: the parent has to be there\<close>
  "mkdir_exist_ok fsys p =
     (case resolve fsys p of
        Inl e \<Rightarrow> Inl e
      | Inr q \<Rightarrow>
          (case node_at fsys q of
             Some Dir \<Rightarrow> Inr fsys
           | Some _ \<Rightarrow> Inl FileExistsError
           | None \<Rightarrow>
               (case node_at fsys (butlast q) of
                  Some Dir \<Rightarrow> Inr (fsys @ [(q, Dir)])
                | Some _ \<Rightarrow> Inl NotADirectoryError
                | None \<Rightarrow> Inl FileNotFoundError)))"

definition unlink :: "filesystem \<Rightarrow> path \<Rightarrow> error + filesystem" where
  \<comment> \<open>\<^verbatim>\<open>Path.unlink()\<close>, with \<^verbatim>\<open>missing_ok\<close> left at False\<close>
  "unlink fsys p =
     (case resolve fsys p of
        Inl e \<Rightarrow> Inl e
      | Inr q \<Rightarrow>
          (case node_at fsys q of
             None \<Rightarrow> Inl FileNotFoundError
           | Some Dir \<Rightarrow> Inl IsADirectoryError
           | Some _ \<Rightarrow> Inr (filter (\<lambda>e. fst e \<noteq> q) fsys)))"

definition rmtree :: "filesystem \<Rightarrow> path \<Rightarrow> (error + unit) \<times> filesystem" where
  \<comment> \<open>\<^verbatim>\<open>shutil.rmtree\<close>: all that is below the directory goes first, then the directory
      itself by \<^verbatim>\<open>rmdir\<close> on the path as written, which the system refuses for the root
      and for a path that ends in \<^verbatim>\<open>..\<close>\<close>
  "rmtree fsys p =
     (case resolve fsys p of
        Inl e \<Rightarrow> (Inl e, fsys)
      | Inr q \<Rightarrow>
          (case node_at fsys q of
             None \<Rightarrow> (Inl FileNotFoundError, fsys)
           | Some Dir \<Rightarrow>
               (let emptied = filter (\<lambda>e. \<not> strict_prefix q (fst e)) fsys
                in if p = [] \<or> last p = ''..'' then (Inl OSError, emptied)
                   else (Inr (), filter (\<lambda>e. fst e \<noteq> q) emptied))
           | Some _ \<Rightarrow> (Inl NotADirectoryError, fsys)))"

section \<open>The world: files and the observable trace\<close>

text \<open>
  Besides the files, the state keeps the sequence of observable events: log records,
  calls of \<^verbatim>\<open>time.sleep\<close>, and the file-system queries of the lookup after a
  download. A sleep is recorded with its argument in seconds: the fixed half second after
  a download, or the number that \<^verbatim>\<open>random.uniform(min_delay, max_delay)\<close> returned.
  The passing of time itself is not represented.
\<close>

datatype level = Debug | Info | Error

datatype duration = Half_second | Drawn rat

datatype event = Log level | Sleep duration | Stat path | Listdir path

record world =
  fs :: filesystem
  trace :: "event list"

definition emit :: "event \<Rightarrow> world \<Rightarrow> world" where
  "emit ev w = w\<lparr>trace := trace w @ [ev]\<rparr>"

section \<open>The external collaborators\<close>

text \<open>
  \<^verbatim>\<open>yt_dlp\<close> is a black box with three entry points: the metadata query
  \<^verbatim>\<open>extract_info(url, download=False)\<close>, \<^verbatim>\<open>prepare_filename(info)\<close>, and
  \<^verbatim>\<open>download([url])\<close> under an output template, which may change the files in any way
  and may do so even when it raises. \<^verbatim>\<open>clean_filename\<close> and \<^verbatim>\<open>create_zip\<close> come
  from the package's \<^verbatim>\<open>utils\<close> module; \<^verbatim>\<open>clean_filename\<close> is a total function on
  strings. All of them are parameters of the model.
\<close>

record extractor =
  extract_info :: "pyval \<Rightarrow> error + pyval"
  prepare_filename :: "pyval \<Rightarrow> error + string"
  download :: "pyval \<Rightarrow> path \<Rightarrow> filesystem \<Rightarrow> (error + unit) \<times> filesystem"

record utils =
  clean_filename :: "string \<Rightarrow> string"
  create_zip :: "path list \<Rightarrow> path \<Rightarrow> path \<Rightarrow> filesystem \<Rightarrow> (error + unit) \<times> filesystem"

section \<open>Playlist metadata: \<^verbatim>\<open>get_playlist_info\<close>\<close>

definition entry_track :: "(string \<times> pyval) list \<Rightarrow> Track option" where
  \<comment> \<open>the body of the loop over the entries; \<open>None\<close> is the \<^verbatim>\<open>continue\<close>\<close>
  "entry_track e =
     (let url = py_or (dict_get e ''webpage_url'') (dict_get e ''url'');
          title = dict_get e ''title'';
          tid = dict_get e ''id'';
          artist = py_or (py_or (dict_get e ''uploader'') (dict_get e ''uploader_id'')) (PStr [])
      in if \<not> (truthy url \<and> truthy title \<and> truthy tid) then None
         else Some \<lparr>track_id = tid, track_title = title, track_artist = artist,
                    track_url = url\<rparr>)"

fun dict_entries :: "pyval list \<Rightarrow> (string \<times> pyval) list list" where
  \<comment> \<open>\<^verbatim>\<open>[e for e in raw_entries if isinstance(e, dict)]\<close>\<close>
  "dict_entries [] = []"
| "dict_entries (PDict e # es) = e # dict_entries es"
| "dict_entries (_ # es) = dict_entries es"

fun append_tracks :: "(string \<times> pyval) list list \<Rightarrow> Track list \<Rightarrow> Track list" where
  "append_tracks [] tracks = tracks"
| "append_tracks (e # es) tracks =
     (case entry_track e of
        None \<Rightarrow> append_tracks es tracks
      | Some t \<Rightarrow> append_tracks es (tracks @ [t]))"

definition get_playlist_info :: "extractor \<Rightarrow> string \<Rightarrow> error + Playlist" where
  \<comment> \<open>The extraction is not guarded. \<^verbatim>\<open>.get\<close> exists on a dict only, and the two
      subscripts raise for a missing key.\<close>
  "get_playlist_info ydl playlist_url =
     (case extract_info ydl (PStr playlist_url) of
        Inl e \<Rightarrow> Inl e
      | Inr playlist_info \<Rightarrow>
          (case playlist_info of
             PDict d \<Rightarrow>
               (case py_iter (py_or (dict_get d ''entries'') (PList [])) of
                  Inl e \<Rightarrow> Inl e
                | Inr raw_entries \<Rightarrow>
                    (let tracks = append_tracks (dict_entries raw_entries) []
                     in case dict_item d ''id'' of
                          Inl e \<Rightarrow> Inl e
                        | Inr i \<Rightarrow>
                            (case dict_item d ''title'' of
                               Inl e \<Rightarrow> Inl e
                             | Inr t \<Rightarrow>
                                 Inr \<lparr>playlist_id = i, playlist_title = t,
                                      playlist_tracks = tracks\<rparr>)))
           | _ \<Rightarrow> Inl AttributeError))"

section \<open>One track: \<^verbatim>\<open>download_track\<close>\<close>

definition found :: "path \<Rightarrow> world \<Rightarrow> (error + path option) \<times> world" where
  \<comment> \<open>the last two lines: log the success and return the path\<close>
  "found filepath w = (Inr (Some filepath), emit (Log Info) w)"

definition locate_file ::
  "string \<Rightarrow> path \<Rightarrow> path \<Rightarrow> world \<Rightarrow> (error + path option) \<times> world" where
  \<comment> \<open>What follows the download, from \<^verbatim>\<open>time.sleep(0.5)\<close> on; none of it is inside a
      \<^verbatim>\<open>try\<close>. A \<^verbatim>\<open>Path\<close> is always truthy, so \<^verbatim>\<open>if not filepath\<close> asks whether
      a path was found.\<close>
  "locate_file clean_name filepath_without_ext output_dir w0 =
     (let w = emit (Sleep Half_second) w0
      in case with_suffix filepath_without_ext ''.mp3'' of
           Inl e \<Rightarrow> (Inl e, w)
         | Inr mp3 \<Rightarrow>
             (let w1 = emit (Stat mp3) w
              in case path_exists (fs w) mp3 of
                   Inl e \<Rightarrow> (Inl e, w1)
                 | Inr True \<Rightarrow> found mp3 w1
                 | Inr False \<Rightarrow>
                     (let w2 = emit (Stat filepath_without_ext) w1
                      in case path_exists (fs w) filepath_without_ext of
                           Inl e \<Rightarrow> (Inl e, w2)
                         | Inr True \<Rightarrow> found filepath_without_ext w2
                         | Inr False \<Rightarrow>
                             (let w3 = emit (Listdir output_dir) w2
                              in case iterdir (fs w) output_dir of
                                   Inl e \<Rightarrow> (Inl e, w3)
                                 | Inr dir_contents \<Rightarrow>
                                     (case filter (\<lambda>f. prefix clean_name (stem f))
                                             dir_contents of
                                        [] \<Rightarrow>
                                          (Inr None, emit (Log Debug) (emit (Log Info) w3))
                                      | f # _ \<Rightarrow> found f w3)))))"

definition download_track ::
  "extractor \<Rightarrow> utils \<Rightarrow> Track \<Rightarrow> path \<Rightarrow> world \<Rightarrow> (error + path option) \<times> world" where
  \<comment> \<open>Both \<^verbatim>\<open>try\<close> blocks catch \<^verbatim>\<open>Exception\<close>, log at level info and return
      \<^verbatim>\<open>None\<close>. Files a failed download left behind stay.\<close>
  "download_track ydl u track output_dir w =
     (case extract_info ydl (track_url track) of
        Inl e \<Rightarrow> (Inr None, emit (Log Info) w)
      | Inr info \<Rightarrow>
          (case prepare_filename ydl info of
             Inl e \<Rightarrow> (Inr None, emit (Log Info) w)
           | Inr filename \<Rightarrow>
               (let clean_name = clean_filename u filename;
                    filepath_without_ext = joinpath output_dir clean_name
                in case download ydl (track_url track) filepath_without_ext (fs w) of
                     (Inl e, fs') \<Rightarrow> (Inr None, emit (Log Info) (w\<lparr>fs := fs'\<rparr>))
                   | (Inr _, fs') \<Rightarrow>
                       locate_file clean_name filepath_without_ext output_dir
                         (w\<lparr>fs := fs'\<rparr>))))"

section \<open>The playlist: \<^verbatim>\<open>download_playlist\<close>\<close>

text \<open>
  The pool runs one task per track and \<^verbatim>\<open>as_completed\<close> yields them as they finish.
  The model runs the tasks one after the other, each as one step, in the order in which
  they finish; that order is not fixed by the code, so it is chosen by a schedule: a list
  of numbers, each selecting the next task to finish among those still pending. How many
  tasks overlap is not represented; of the width of the pool the model keeps that
  \<^verbatim>\<open>ThreadPoolExecutor\<close> refuses one that is not positive.

  \<^verbatim>\<open>random.uniform(a, b)\<close> returns \<open>a + (b - a) * random()\<close>, a number between the two
  bounds, whichever of them is the larger. Which number is the choice of the random
  source: the list \<open>draws\<close> gives one candidate per call, clipped into the interval so that
  every list is a source. \<^verbatim>\<open>time.sleep\<close> refuses a negative number with
  \<^verbatim>\<open>ValueError\<close>.
\<close>

fun completion_order :: "nat list \<Rightarrow> 'a list \<Rightarrow> nat \<Rightarrow> 'a list" where
  \<comment> \<open>the third argument counts the tasks still pending\<close>
  "completion_order sched pending 0 = []"
| "completion_order sched pending (Suc n) =
     (if pending = [] then []
      else (let i = (case sched of [] \<Rightarrow> 0 | k # _ \<Rightarrow> k mod length pending)
            in pending ! i #
               completion_order (tl sched) (take i pending @ drop (Suc i) pending) n))"

definition uniform :: "int \<Rightarrow> int \<Rightarrow> rat list \<Rightarrow> rat" where
  "uniform a b draws =
     (let lo = min (of_int a) (of_int b); hi = max (of_int a) (of_int b)
      in case draws of [] \<Rightarrow> lo | d # _ \<Rightarrow> max lo (min hi d))"

definition drain :: "extractor \<Rightarrow> utils \<Rightarrow> Track list \<Rightarrow> path \<Rightarrow> world \<Rightarrow> world" where
  \<comment> \<open>leaving the \<^verbatim>\<open>with\<close> block waits for the tasks not yet consumed\<close>
  "drain ydl u ts dir w = fold (\<lambda>t w'. snd (download_track ydl u t dir w')) ts w"

fun as_completed_loop ::
  "extractor \<Rightarrow> utils \<Rightarrow> int \<Rightarrow> int \<Rightarrow> rat list \<Rightarrow> Track list \<Rightarrow> path \<Rightarrow> path list \<Rightarrow> world
     \<Rightarrow> (error + path list) \<times> world" where
  \<comment> \<open>The tracks come in completion order. \<^verbatim>\<open>future.result()\<close> raises again what the
      task raised, and an exception in the loop leaves the \<^verbatim>\<open>with\<close> block.\<close>
  "as_completed_loop ydl u min_delay max_delay draws [] dir downloaded_files w =
     (Inr downloaded_files, w)"
| "as_completed_loop ydl u min_delay max_delay draws (t # ts) dir downloaded_files w =
     (case download_track ydl u t dir w of
        (Inl e, w') \<Rightarrow> (Inl e, drain ydl u ts dir w')
      | (Inr filepath, w') \<Rightarrow>
          (let delay = uniform min_delay max_delay draws
           in if delay < 0 then (Inl ValueError, drain ydl u ts dir w')
              else as_completed_loop ydl u min_delay max_delay (tl draws) ts dir
                     (case filepath of
                        None \<Rightarrow> downloaded_files
                      | Some p \<Rightarrow> downloaded_files @ [p])
                     (emit (Sleep (Drawn delay)) w')))"

fun unlink_all :: "path list \<Rightarrow> filesystem \<Rightarrow> (error + unit) \<times> filesystem" where
  \<comment> \<open>\<^verbatim>\<open>for file in downloaded_files: file.unlink()\<close>\<close>
  "unlink_all [] fsys = (Inr (), fsys)"
| "unlink_all (f # files) fsys =
     (case unlink fsys f of
        Inl e \<Rightarrow> (Inl e, fsys)
      | Inr fsys' \<Rightarrow> unlink_all files fsys')"

definition prepare ::
  "extractor \<Rightarrow> utils \<Rightarrow> string \<Rightarrow> path \<Rightarrow> world
     \<Rightarrow> (error + Playlist \<times> string \<times> path) \<times> world" where
  \<comment> \<open>Up to \<^verbatim>\<open>playlist_dir.mkdir(exist_ok=True)\<close>: the playlist, the cleaned playlist
      name and the playlist directory. \<^verbatim>\<open>clean_filename\<close> is a function on strings; a
      title of another type is refused.\<close>
  "prepare ydl u playlist_url output_dir w =
     (case mkdir_parents (fs w) output_dir of
        (Inl e, fs1) \<Rightarrow> (Inl e, w\<lparr>fs := fs1\<rparr>)
      | (Inr _, fs1) \<Rightarrow>
          (let w1 = emit (Log Debug) (w\<lparr>fs := fs1\<rparr>)
           in case get_playlist_info ydl playlist_url of
                Inl e \<Rightarrow> (Inl e, w1)
              | Inr playlist \<Rightarrow>
                  (case playlist_title playlist of
                     PStr title \<Rightarrow>
                       (let playlist_name = clean_filename u title;
                            playlist_dir = joinpath output_dir playlist_name
                        in case mkdir_exist_ok (fs w1) playlist_dir of
                             Inl e \<Rightarrow> (Inl e, w1)
                           | Inr fs2 \<Rightarrow>
                               (Inr (playlist, playlist_name, playlist_dir), w1\<lparr>fs := fs2\<rparr>))
                   | _ \<Rightarrow> (Inl TypeError, w1))))"

definition archive ::
  "utils \<Rightarrow> path list \<Rightarrow> path \<Rightarrow> path \<Rightarrow> world \<Rightarrow> (error + path option) \<times> world" where
  \<comment> \<open>the \<^verbatim>\<open>should_zip\<close> branch\<close>
  "archive u downloaded_files zip_filename playlist_dir w =
     (case create_zip u downloaded_files zip_filename playlist_dir (fs w) of
        (Inl e, fs1) \<Rightarrow> (Inl e, w\<lparr>fs := fs1\<rparr>)
      | (Inr _, fs1) \<Rightarrow>
          (case unlink_all downloaded_files fs1 of
             (Inl e, fs2) \<Rightarrow> (Inl e, w\<lparr>fs := fs2\<rparr>)
           | (Inr _, fs2) \<Rightarrow>
               (case rmtree fs2 playlist_dir of
                  (Inl e, fs3) \<Rightarrow> (Inl e, w\<lparr>fs := fs3\<rparr>)
                | (Inr _, fs3) \<Rightarrow> (Inr (Some zip_filename), w\<lparr>fs := fs3\<rparr>))))"

definition finish ::
  "utils \<Rightarrow> bool \<Rightarrow> path \<Rightarrow> string \<Rightarrow> path \<Rightarrow> path list \<Rightarrow> world
     \<Rightarrow> (error + path option) \<times> world" where
  \<comment> \<open>from \<^verbatim>\<open>if downloaded_files:\<close> to the end\<close>
  "finish u should_zip output_dir playlist_name playlist_dir downloaded_files w =
     (if downloaded_files \<noteq> [] then
        (if should_zip
         then archive u downloaded_files (joinpath output_dir (playlist_name @ ''.zip''))
                playlist_dir w
         else (Inr (Some playlist_dir), w))
      else (Inr None, emit (Log Error) w))"

definition download_playlist ::
  "extractor \<Rightarrow> utils \<Rightarrow> nat list \<Rightarrow> rat list \<Rightarrow> string \<Rightarrow> path \<Rightarrow> int \<Rightarrow> int \<Rightarrow> int \<Rightarrow> bool
     \<Rightarrow> world \<Rightarrow> (error + path option) \<times> world" where
  \<comment> \<open>\<open>sched\<close> and \<open>draws\<close> are the choices of the pool and of the random source; the
      other arguments are those of the source, in its order\<close>
  "download_playlist ydl u sched draws playlist_url output_dir max_workers min_delay max_delay
       should_zip w =
     (case prepare ydl u playlist_url output_dir w of
        (Inl e, w1) \<Rightarrow> (Inl e, w1)
      | (Inr (playlist, playlist_name, playlist_dir), w1) \<Rightarrow>
          (if max_workers \<le> 0 then (Inl ValueError, w1)
           else
             (let tracks = playlist_tracks playlist;
                  done_order = completion_order sched tracks (length tracks)
              in case as_completed_loop ydl u min_delay max_delay draws done_order
                        playlist_dir [] w1 of
                   (Inl e, w2) \<Rightarrow> (Inl e, w2)
                 | (Inr downloaded_files, w2) \<Rightarrow>
                     finish u should_zip output_dir playlist_name playlist_dir
                       downloaded_files w2)))"

section \<open>What the specification says, as definitions\<close>

text \<open>
  The data model asks of a track a non-empty URL, a non-empty title and a non-empty
  identifier. An entry has a field when the field is there and its value counts as true in
  Python (it is not \<^verbatim>\<open>None\<close>, not empty, not zero and not \<^verbatim>\<open>False\<close>); it is
  well formed when it is a structured record that has a URL (under either of the two keys
  the extractor uses), a title and an identifier.
\<close>

definition has_field :: "(string \<times> pyval) list \<Rightarrow> string \<Rightarrow> bool" where
  "has_field e k = truthy (dict_get e k)"

fun well_formed :: "pyval \<Rightarrow> bool" where
  "well_formed (PDict e) =
     ((has_field e ''webpage_url'' \<or> has_field e ''url'') \<and> has_field e ''title''
      \<and> has_field e ''id'')"
| "well_formed _ = False"

fun entry_as_track :: "pyval \<Rightarrow> Track" where
  \<comment> \<open>the track a well-formed entry stands for; on anything but a record the value is a
      placeholder that no statement below looks at\<close>
  "entry_as_track (PDict e) =
     \<lparr>track_id = dict_get e ''id'',
      track_title = dict_get e ''title'',
      track_artist =
        (if has_field e ''uploader'' then dict_get e ''uploader''
         else if has_field e ''uploader_id'' then dict_get e ''uploader_id''
         else PStr []),
      track_url =
        (if has_field e ''webpage_url'' then dict_get e ''webpage_url''
         else dict_get e ''url'')\<rparr>"
| "entry_as_track _ =
     \<lparr>track_id = PNone, track_title = PNone, track_artist = PNone, track_url = PNone\<rparr>"

text \<open>
  The results of the tasks, in completion order: \<open>Inr None\<close> is a task that returned no
  file, \<open>Inr (Some p)\<close> one that returned the file \<open>p\<close>, \<open>Inl e\<close> one that raised. The
  list is a ghost of \<open>as_completed_loop\<close>: it follows the same states and changes nothing.
  Once the loop has ended with an exception, the remaining tasks still run to their end,
  with no sleep between them.
\<close>

fun drain_results ::
  "extractor \<Rightarrow> utils \<Rightarrow> Track list \<Rightarrow> path \<Rightarrow> world \<Rightarrow> (error + path option) list" where
  "drain_results ydl u [] dir w = []"
| "drain_results ydl u (t # ts) dir w =
     (case download_track ydl u t dir w of
        (r, w') \<Rightarrow> r # drain_results ydl u ts dir w')"

fun task_results ::
  "extractor \<Rightarrow> utils \<Rightarrow> int \<Rightarrow> int \<Rightarrow> rat list \<Rightarrow> Track list \<Rightarrow> path \<Rightarrow> world
     \<Rightarrow> (error + path option) list" where
  "task_results ydl u min_delay max_delay draws [] dir w = []"
| "task_results ydl u min_delay max_delay draws (t # ts) dir w =
     (case download_track ydl u t dir w of
        (Inl e, w') \<Rightarrow> Inl e # drain_results ydl u ts dir w'
      | (Inr r, w') \<Rightarrow>
          Inr r #
          (if uniform min_delay max_delay draws < 0 then drain_results ydl u ts dir w'
           else task_results ydl u min_delay max_delay (tl draws) ts dir
                  (emit (Sleep (Drawn (uniform min_delay max_delay draws))) w')))"

definition returned_no_file :: "error + path option \<Rightarrow> bool" where
  "returned_no_file r = (r = Inr None)"

fun successful_files :: "(error + path option) list \<Rightarrow> path list" where
  \<comment> \<open>the files of the tasks that returned one, in completion order\<close>
  "successful_files [] = []"
| "successful_files (Inr (Some p) # rs) = p # successful_files rs"
| "successful_files (_ # rs) = successful_files rs"

definition raised :: "error + path option \<Rightarrow> bool" where
  "raised r = (case r of Inl _ \<Rightarrow> True | Inr _ \<Rightarrow> False)"



fun drawn_delays :: "int \<Rightarrow> int \<Rightarrow> rat list \<Rightarrow> nat \<Rightarrow> rat list" where
  \<comment> \<open>what \<open>n\<close> calls of \<^verbatim>\<open>random.uniform\<close> in a row return\<close>
  "drawn_delays a b draws 0 = []"
| "drawn_delays a b draws (Suc n) = uniform a b draws # drawn_delays a b (tl draws) n"


text \<open>
  A path names a regular file when it is canonical, so that it resolves to itself, and a
  file is there; it names a directory that can be removed when it is canonical, not the
  root, and a directory is there.
\<close>

definition regular_file :: "filesystem \<Rightarrow> path \<Rightarrow> bool" where
  "regular_file fsys f =
     (resolve fsys f = Inr f
      \<and> (case node_at fsys f of None \<Rightarrow> False | Some Dir \<Rightarrow> False | Some _ \<Rightarrow> True))"

definition removable_dir :: "filesystem \<Rightarrow> path \<Rightarrow> bool" where
  "removable_dir fsys d =
     (resolve fsys d = Inr d \<and> d \<noteq> [] \<and> last d \<noteq> ''..'' \<and> node_at fsys d = Some Dir)"

subsection \<open>Filename sanitization\<close>

definition is_space :: "char \<Rightarrow> bool" where
  \<comment> \<open>Modelled from the spec: whitespace, taken as what Python's \<^verbatim>\<open>\s\<close> matches in
      ASCII\<close>
  "is_space c = (c \<in> set [CHR '' '', CHR 0x09, CHR 0x0A, CHR 0x0B, CHR 0x0C, CHR 0x0D])"

fun collapse_whitespace :: "bool \<Rightarrow> string \<Rightarrow> string" where
  \<comment> \<open>Modelled from the spec: collapsing whitespace, a run of it becomes one space; the
      flag says that the character before was whitespace\<close>
  "collapse_whitespace prev [] = []"
| "collapse_whitespace prev (c # cs) =
     (if is_space c
      then (if prev then collapse_whitespace True cs
            else CHR '' '' # collapse_whitespace True cs)
      else c # collapse_whitespace False cs)"

text \<open>
  Modelled from the spec: \<^verbatim>\<open>clean_filename\<close> of the package's \<^verbatim>\<open>utils\<close> module,
  which is not among the sources. Section 4.3 describes it as stripping the characters that
  are illegal or risky in file names, collapsing whitespace and enforcing a maximum
  length, in that order here. The unsafe set and the maximum length are not given, so they
  are parameters.
\<close>

definition spec_clean_filename :: "(char \<Rightarrow> bool) \<Rightarrow> nat \<Rightarrow> string \<Rightarrow> string" where
  "spec_clean_filename unsafe max_length name =
     take max_length (collapse_whitespace False (filter (\<lambda>c. \<not> unsafe c) name))"

section \<open>A sample extractor and sample utilities\<close>

text \<open>
  A small stand-in for the collaborators, for running the model. The extractor knows one
  playlist, \<^verbatim>\<open>sc:mix\<close>, with the given entries, and the tracks whose entry carries
  their URL, unless the URL is listed as blocked; any other URL is unavailable. The
  proposed file name of a track is its title. A download writes the template path with
  \<^verbatim>\<open>.mp3\<close> appended, as the audio post-processor does. The sample
  \<^verbatim>\<open>clean_filename\<close> drops slashes, and the sample \<^verbatim>\<open>create_zip\<close> writes an
  archive of the files it is given.
\<close>

definition sample_entry :: "string \<Rightarrow> string \<Rightarrow> pyval" where
  "sample_entry i t =
     PDict [(''id'', PStr i), (''title'', PStr t), (''url'', PStr (''sc:'' @ i)),
            (''uploader'', PStr ''dj'')]"

definition sample_track :: "string \<Rightarrow> string \<Rightarrow> Track" where
  "sample_track i t =
     \<lparr>track_id = PStr i, track_title = PStr t, track_artist = PStr ''dj'',
      track_url = PStr (''sc:'' @ i)\<rparr>"

definition entry_has_url :: "pyval \<Rightarrow> pyval \<Rightarrow> bool" where
  "entry_has_url u e = (case e of PDict d \<Rightarrow> dict_get d ''url'' = u | _ \<Rightarrow> False)"

definition sample_ydl :: "pyval list \<Rightarrow> string list \<Rightarrow> extractor" where
  "sample_ydl entries blocked =
     \<lparr>extract_info =
        (\<lambda>u. if u = PStr ''sc:mix''
              then Inr (PDict [(''id'', PStr ''77''), (''title'', PStr ''mix''),
                               (''entries'', PList entries)])
              else if u \<in> set (map PStr blocked) then Inl (ExtractorError ''geo-blocked'')
              else (case find (entry_has_url u) entries of
                      Some e \<Rightarrow> Inr e
                    | None \<Rightarrow> Inl (ExtractorError ''unavailable''))),
      prepare_filename =
        (\<lambda>info. case info of
                   PDict d \<Rightarrow> (case dict_get d ''title'' of PStr t \<Rightarrow> Inr t | _ \<Rightarrow> Inl TypeError)
                 | _ \<Rightarrow> Inl TypeError),
      download =
        (\<lambda>u tmpl fsys.
           (Inr (), AList.update (butlast tmpl @ [path_name tmpl @ ''.mp3'']) Media fsys))\<rparr>"

definition write_plain :: "pyval \<Rightarrow> path \<Rightarrow> filesystem \<Rightarrow> (error + unit) \<times> filesystem" where
  \<comment> \<open>a download that leaves the file under the template path itself\<close>
  "write_plain u tmpl fsys = (Inr (), AList.update tmpl Media fsys)"

definition write_nothing :: "pyval \<Rightarrow> path \<Rightarrow> filesystem \<Rightarrow> (error + unit) \<times> filesystem" where
  \<comment> \<open>a download that reports success and leaves no file\<close>
  "write_nothing u tmpl fsys = (Inr (), fsys)"

definition fail_partway :: "pyval \<Rightarrow> path \<Rightarrow> filesystem \<Rightarrow> (error + unit) \<times> filesystem" where
  \<comment> \<open>a download that raises after it has written a partial file\<close>
  "fail_partway u tmpl fsys =
     (Inl (ExtractorError ''download failed''),
      AList.update (butlast tmpl @ [path_name tmpl @ ''.part'']) Media fsys)"

definition disk_full ::
  "path list \<Rightarrow> path \<Rightarrow> path \<Rightarrow> filesystem \<Rightarrow> (error + unit) \<times> filesystem" where
  \<comment> \<open>an archival step that cannot write and raises\<close>
  "disk_full files zip_filename base fsys = (Inl (ArchiveError ''disk full''), fsys)"

definition sample_utils :: utils where
  "sample_utils =
     \<lparr>clean_filename = filter (\<lambda>c. c \<noteq> CHR ''/''),
      create_zip =
        (\<lambda>files zip_filename base fsys.
           (Inr (), AList.update zip_filename (Archive files) fsys))\<rparr>"

definition sample_unsafe :: "char \<Rightarrow> bool" where
  "sample_unsafe c = (c \<in> set ''/:*?<>|'')"

definition empty_world :: world where
  "empty_world = \<lparr>fs = [], trace = []\<rparr>"

definition out_world :: world where
  \<comment> \<open>the output directory is there\<close>
  "out_world = \<lparr>fs = [([''out''], Dir)], trace = []\<rparr>"

definition mix_world :: world where
  \<comment> \<open>the empty world after the output directory and the playlist directory were made\<close>
  "mix_world = \<lparr>fs = [([''out''], Dir), ([''out'', ''mix''], Dir)], trace = [Log Debug]\<rparr>"

definition scan_world :: world where
  \<comment> \<open>An output directory that holds a file whose name, but not whose stem, starts with
      \<^verbatim>\<open>v1.2\<close>, then an unrelated file, then a directory whose stem is \<^verbatim>\<open>v1.2\<close>;
      and another directory with a file \<^verbatim>\<open>v1.2.mp3\<close>, listed before all of them.\<close>
  "scan_world =
     \<lparr>fs = [([''other''], Dir), ([''other'', ''v1.2.mp3''], Media), ([''out''], Dir),
            ([''out'', ''v1.2x''], Media), ([''out'', ''notes.txt''], Media),
            ([''out'', ''v1.2.x''], Dir)],
      trace = []\<rparr>"

definition xyz_world :: world where
  \<comment> \<open>an output directory that holds the one file \<^verbatim>\<open>x.yz\<close>\<close>
  "xyz_world = \<lparr>fs = [([''out''], Dir), ([''out'', ''x.yz''], Media)], trace = []\<rparr>"


section \<open>Playlist metadata: properties\<close>

lemma entry_track_well_formed:
  "entry_track e = (if well_formed (PDict e) then Some (entry_as_track (PDict e)) else None)"
  by (auto simp: entry_track_def has_field_def py_or_def Let_def)

lemma append_tracks_dict_entries:
  "append_tracks (dict_entries raw) acc = acc @ map entry_as_track (filter well_formed raw)"
proof (induction raw arbitrary: acc)
  case Nil
  show ?case by simp
next
  case (Cons x raw)
  show ?case
  proof (cases x)
    case (PDict e)
    then show ?thesis
      using Cons.IH
      by (simp add: entry_track_well_formed del: well_formed.simps entry_as_track.simps)
  qed (simp_all add: Cons.IH)
qed

lemma get_playlist_info_listed:
  assumes "extract_info ydl (PStr playlist_url) = Inr (PDict d)"
      and "py_iter (py_or (dict_get d ''entries'') (PList [])) = Inr raw"
      and "map_of d ''id'' = Some i"
      and "map_of d ''title'' = Some t"
  shows "get_playlist_info ydl playlist_url =
           Inr \<lparr>playlist_id = i, playlist_title = t,
                playlist_tracks = map entry_as_track (filter well_formed raw)\<rparr>"
  using assms
  by (simp add: get_playlist_info_def dict_item_def append_tracks_dict_entries)

text \<open>
  Claim C3. Let the extractor return a playlist record with an identifier and a title, and
  let \<open>raw\<close> be the sequence the code iterates over, the record's entries or nothing
  when there are none. Then \<^verbatim>\<open>get_playlist_info\<close> returns a playlist in which every
  well-formed entry is kept as its track, every track comes from a well-formed entry, and
  there are as many tracks as well-formed entries: an entry that is not a record, or that
  lacks a URL, a title or an identifier, contributes nothing. Every track kept has a
  non-empty URL, title and identifier.
\<close>

theorem malformed_entries_excluded:
  assumes "extract_info ydl (PStr playlist_url) = Inr (PDict d)"
      and "py_iter (py_or (dict_get d ''entries'') (PList [])) = Inr raw"
      and "map_of d ''id'' = Some i"
      and "map_of d ''title'' = Some t"
  shows "\<exists>pl. get_playlist_info ydl playlist_url = Inr pl
           \<and> (\<forall>e \<in> set raw. well_formed e \<longrightarrow> entry_as_track e \<in> set (playlist_tracks pl))
           \<and> (\<forall>tr \<in> set (playlist_tracks pl).
                 \<exists>e \<in> set raw. well_formed e \<and> tr = entry_as_track e)
           \<and> length (playlist_tracks pl) = length (filter well_formed raw)
           \<and> (\<forall>tr \<in> set (playlist_tracks pl).
                 truthy (track_url tr) \<and> truthy (track_title tr) \<and> truthy (track_id tr))"
proof -
  let ?pl = "\<lparr>playlist_id = i, playlist_title = t,
              playlist_tracks = map entry_as_track (filter well_formed raw)\<rparr>"
  have g: "get_playlist_info ydl playlist_url = Inr ?pl"
    using assms by (rule get_playlist_info_listed)
  have wf: "truthy (track_url (entry_as_track e)) \<and> truthy (track_title (entry_as_track e))
              \<and> truthy (track_id (entry_as_track e))" if "well_formed e" for e
    using that by (cases e) (auto simp: has_field_def)
  have "\<forall>e \<in> set raw. well_formed e \<longrightarrow> entry_as_track e \<in> set (playlist_tracks ?pl)"
    by simp
  moreover have "\<forall>tr \<in> set (playlist_tracks ?pl).
                   \<exists>e \<in> set raw. well_formed e \<and> tr = entry_as_track e"
    by auto
  moreover have "length (playlist_tracks ?pl) = length (filter well_formed raw)"
    by simp
  moreover have "\<forall>tr \<in> set (playlist_tracks ?pl).
                   truthy (track_url tr) \<and> truthy (track_title tr) \<and> truthy (track_id tr)"
    using wf by auto
  ultimately show ?thesis using g by blast
qed

theorem malformed_entries_excluded_witness:
  "\<exists>pl. get_playlist_info
          (sample_ydl [sample_entry ''1'' ''a'', PNone, sample_entry ''2'' [],
                       sample_entry ''3'' ''c''] [])
          ''sc:mix'' = Inr pl
      \<and> sample_track ''1'' ''a'' \<in> set (playlist_tracks pl)
      \<and> sample_track ''3'' ''c'' \<in> set (playlist_tracks pl)
      \<and> length (playlist_tracks pl) = 2"
proof -
  let ?raw = "[sample_entry ''1'' ''a'', PNone, sample_entry ''2'' [], sample_entry ''3'' ''c'']"
  let ?d = "[(''id'', PStr ''77''), (''title'', PStr ''mix''), (''entries'', PList ?raw)]"
  have h1: "extract_info (sample_ydl ?raw []) (PStr ''sc:mix'') = Inr (PDict ?d)"
    by (simp add: sample_ydl_def)
  have h2: "py_iter (py_or (dict_get ?d ''entries'') (PList [])) = Inr ?raw"
    by (simp add: dict_get_def py_or_def)
  have h3: "map_of ?d ''id'' = Some (PStr ''77'')" by simp
  have h4: "map_of ?d ''title'' = Some (PStr ''mix'')" by simp
  have wf1: "well_formed (sample_entry ''1'' ''a'')"
   and wf3: "well_formed (sample_entry ''3'' ''c'')"
    by (simp_all add: sample_entry_def has_field_def dict_get_def)
  have t1: "entry_as_track (sample_entry ''1'' ''a'') = sample_track ''1'' ''a''"
   and t3: "entry_as_track (sample_entry ''3'' ''c'') = sample_track ''3'' ''c''"
    by (simp_all add: sample_entry_def sample_track_def has_field_def dict_get_def)
  have n: "length (filter well_formed ?raw) = 2"
    by (simp add: sample_entry_def has_field_def dict_get_def)
  from malformed_entries_excluded [OF h1 h2 h3 h4]
  obtain pl where pl: "get_playlist_info (sample_ydl ?raw []) ''sc:mix'' = Inr pl"
    and a: "\<forall>e \<in> set ?raw. well_formed e \<longrightarrow> entry_as_track e \<in> set (playlist_tracks pl)"
    and l: "length (playlist_tracks pl) = length (filter well_formed ?raw)"
    by blast
  have "sample_track ''1'' ''a'' \<in> set (playlist_tracks pl)"
    using a wf1 t1 by (metis list.set_intros(1))
  moreover have "sample_track ''3'' ''c'' \<in> set (playlist_tracks pl)"
  proof -
    have "sample_entry ''3'' ''c'' \<in> set ?raw" by simp
    then show ?thesis using a wf3 t3 by metis
  qed
  ultimately show ?thesis using pl l n by auto
qed

text \<open>
  Claim C10. Under the same conditions the track list is exactly the well-formed entries
  of the raw sequence, each as its track, in the order of the raw sequence: the kept
  subsequence, so the listing is a function of the extractor's output.
\<close>

theorem playlist_tracks_in_entry_order:
  assumes "extract_info ydl (PStr playlist_url) = Inr (PDict d)"
      and "py_iter (py_or (dict_get d ''entries'') (PList [])) = Inr raw"
      and "map_of d ''id'' = Some i"
      and "map_of d ''title'' = Some t"
  shows "get_playlist_info ydl playlist_url =
           Inr \<lparr>playlist_id = i, playlist_title = t,
                playlist_tracks = map entry_as_track (filter well_formed raw)\<rparr>"
  using assms by (rule get_playlist_info_listed)

theorem playlist_tracks_in_entry_order_witness:
  "get_playlist_info
     (sample_ydl [sample_entry ''1'' ''a'', PNone, sample_entry ''2'' [],
                  sample_entry ''3'' ''c''] [])
     ''sc:mix''
   = Inr \<lparr>playlist_id = PStr ''77'', playlist_title = PStr ''mix'',
          playlist_tracks = [sample_track ''1'' ''a'', sample_track ''3'' ''c'']\<rparr>"
proof -
  let ?raw = "[sample_entry ''1'' ''a'', PNone, sample_entry ''2'' [], sample_entry ''3'' ''c'']"
  let ?d = "[(''id'', PStr ''77''), (''title'', PStr ''mix''), (''entries'', PList ?raw)]"
  have h1: "extract_info (sample_ydl ?raw []) (PStr ''sc:mix'') = Inr (PDict ?d)"
    by (simp add: sample_ydl_def)
  have h2: "py_iter (py_or (dict_get ?d ''entries'') (PList [])) = Inr ?raw"
    by (simp add: dict_get_def py_or_def)
  have h3: "map_of ?d ''id'' = Some (PStr ''77'')" by simp
  have h4: "map_of ?d ''title'' = Some (PStr ''mix'')" by simp
  show ?thesis
    using playlist_tracks_in_entry_order [OF h1 h2 h3 h4]
    by (simp add: sample_entry_def sample_track_def has_field_def dict_get_def)
qed

section \<open>Filename sanitization: properties\<close>

lemma collapse_whitespace_chars:
  "set (collapse_whitespace b xs) \<subseteq> insert CHR '' '' (set xs)"
  by (induction xs arbitrary: b) auto

lemma collapse_whitespace_take:
  "collapse_whitespace b (take n (collapse_whitespace b xs)) = take n (collapse_whitespace b xs)"
proof (induction xs arbitrary: b n)
  case Nil
  show ?case by simp
next
  case (Cons c cs)
  have sp: "is_space CHR '' ''" by (simp add: is_space_def)
  show ?case
  proof (cases n)
    case 0
    then show ?thesis by simp
  next
    case (Suc m)
    then show ?thesis using Cons.IH sp by simp
  qed
qed

text \<open>
  Claim C8. Sanitization as the specification describes it is a total function, so it
  returns a string for every input. When the space is not among the unsafe characters,
  sanitizing a sanitized name gives the same name, no sanitized name contains an unsafe
  character, and no sanitized name is longer than the maximum length.
\<close>

theorem clean_filename_idempotent_safe:
  assumes "\<not> unsafe CHR '' ''"
  shows "spec_clean_filename unsafe n (spec_clean_filename unsafe n s)
           = spec_clean_filename unsafe n s
       \<and> (\<forall>c \<in> set (spec_clean_filename unsafe n s). \<not> unsafe c)
       \<and> length (spec_clean_filename unsafe n s) \<le> n"
proof -
  let ?r = "spec_clean_filename unsafe n s"
  have safe: "\<forall>c \<in> set ?r. \<not> unsafe c"
  proof
    fix c assume "c \<in> set ?r"
    then have "c \<in> set (collapse_whitespace False (filter (\<lambda>c. \<not> unsafe c) s))"
      unfolding spec_clean_filename_def by (rule in_set_takeD)
    then have "c = CHR '' '' \<or> c \<in> set (filter (\<lambda>c. \<not> unsafe c) s)"
      using collapse_whitespace_chars by fastforce
    then show "\<not> unsafe c" using assms by auto
  qed
  then have "filter (\<lambda>c. \<not> unsafe c) ?r = ?r" by simp
  then have "spec_clean_filename unsafe n ?r = take n (collapse_whitespace False ?r)"
    by (simp add: spec_clean_filename_def[of unsafe n ?r])
  also have "\<dots> = take n ?r"
    unfolding spec_clean_filename_def[of unsafe n s] by (simp only: collapse_whitespace_take)
  also have "\<dots> = ?r"
    by (simp add: spec_clean_filename_def)
  finally have idem: "spec_clean_filename unsafe n ?r = ?r" .
  have "length ?r \<le> n" by (simp add: spec_clean_filename_def)
  with idem safe show ?thesis by blast
qed

theorem clean_filename_idempotent_safe_witness:
  "\<not> sample_unsafe CHR '' ''
   \<and> spec_clean_filename sample_unsafe 12 ''a/b:  c   d?e fgh ijk'' = ''ab c de fgh ''
   \<and> spec_clean_filename sample_unsafe 12 ''ab c de fgh '' = ''ab c de fgh ''
   \<and> filter sample_unsafe ''ab c de fgh '' = []"
proof -
  have h: "\<not> sample_unsafe CHR '' ''" by (simp add: sample_unsafe_def)
  have v: "spec_clean_filename sample_unsafe 12 ''a/b:  c   d?e fgh ijk'' = ''ab c de fgh ''"
    by (simp add: spec_clean_filename_def sample_unsafe_def is_space_def)
  show ?thesis
    using h v
      clean_filename_idempotent_safe [of sample_unsafe 12 "''a/b:  c   d?e fgh ijk''", OF h]
    by (simp add: filter_empty_conv)
qed

section \<open>One track: properties\<close>

lemma emit_simps [simp]:
  "fs (emit ev w) = fs w" "trace (emit ev w) = trace w @ [ev]"
  by (simp_all add: emit_def)






subsection \<open>Evaluating the samples\<close>

lemmas sample_defs =
  sample_ydl_def sample_track_def sample_entry_def entry_has_url_def dict_get_def dict_item_def
  sample_utils_def empty_world_def out_world_def mix_world_def scan_world_def xyz_world_def
  write_plain_def write_nothing_def fail_partway_def disk_full_def

lemmas path_defs =
  joinpath_def path_parts_def path_name_def with_suffix_def name_split_def stem_def

lemmas fs_defs =
  path_exists_def resolve_def has_nul_def path_length_def PATH_MAX_def NAME_MAX_def node_at_def
  iterdir_def mkdir_parents_def mkdir_exist_ok_def unlink_def rmtree_def prefixes_def

lemmas model_defs =
  prepare_def get_playlist_info_def entry_track_def py_or_def download_track_def
  locate_file_def found_def emit_def Let_def download_playlist_def finish_def archive_def
  uniform_def







subsection \<open>Failures of the probe and of the download\<close>




subsection \<open>Looking for the downloaded file\<close>




section \<open>The playlist: properties\<close>

subsection \<open>The completion order and the loop\<close>

text \<open>
  Whatever the schedule, the completion order is a permutation of the tracks.
\<close>

lemma mset_completion_order:
  "length xs = n \<Longrightarrow> mset (completion_order sched xs n) = mset xs"
proof (induction n arbitrary: sched xs)
  case 0
  then show ?case by simp
next
  case (Suc n)
  define i where "i = (case sched of [] \<Rightarrow> 0 | k # _ \<Rightarrow> k mod length xs)"
  have ne: "xs \<noteq> []" using Suc.prems by auto
  have i: "i < length xs"
    using ne by (auto simp: i_def split: list.splits)
  let ?rest = "take i xs @ drop (Suc i) xs"
  have len: "length ?rest = n" using i Suc.prems by simp
  have "mset (completion_order sched xs (Suc n)) = {#xs ! i#} + mset ?rest"
    using ne Suc.IH [OF len] by (simp add: i_def Let_def)
  also have "\<dots> = mset (take i xs @ xs ! i # drop (Suc i) xs)" by simp
  also have "\<dots> = mset xs" using i by (simp only: id_take_nth_drop [symmetric])
  finally show ?case .
qed

lemma length_completion_order:
  "length (completion_order sched xs (length xs)) = length xs"
proof -
  have "size (mset (completion_order sched xs (length xs))) = size (mset xs)"
    by (simp add: mset_completion_order)
  then show ?thesis by simp
qed

lemma length_drain_results:
  "length (drain_results ydl u ts dir w) = length ts"
  by (induction ts arbitrary: w) (auto split: prod.splits)

lemma length_task_results:
  "length (task_results ydl u mn mx draws ts dir w) = length ts"
  by (induction ts arbitrary: w draws)
     (auto simp: length_drain_results split: prod.splits sum.splits)




lemma length_drawn_delays: "length (drawn_delays a b draws n) = n"
  by (induction n arbitrary: draws) auto


text \<open>
  When the loop returns, no task has raised and the list holds the files of the tasks that
  returned one, in completion order. When no task raises and neither bound of the delay is
  negative, the loop returns, and it has slept one drawn delay per task.
\<close>

lemma loop_collects:
  "as_completed_loop ydl u mn mx draws ts dir files w = (Inr files', w') \<Longrightarrow>
     files' = files @ successful_files (task_results ydl u mn mx draws ts dir w)
     \<and> (\<forall>r \<in> set (task_results ydl u mn mx draws ts dir w). \<not> raised r)"
proof (induction ts arbitrary: files w draws)
  case Nil
  then show ?case by simp
next
  case (Cons t ts)
  obtain r w1 where dt: "download_track ydl u t dir w = (r, w1)"
    by (cases "download_track ydl u t dir w")
  show ?case
  proof (cases r)
    case (Inl e)
    then show ?thesis using Cons.prems dt by simp
  next
    case (Inr x)
    let ?d = "uniform mn mx draws"
    let ?w2 = "emit (Sleep (Drawn ?d)) w1"
    let ?files2 = "case x of None \<Rightarrow> files | Some p \<Rightarrow> files @ [p]"
    have nn: "\<not> ?d < 0"
      using Cons.prems dt Inr by (auto simp: Let_def split: if_splits)
    then have "as_completed_loop ydl u mn mx (tl draws) ts dir ?files2 ?w2 = (Inr files', w')"
      using Cons.prems dt Inr by (simp add: Let_def)
    from Cons.IH [OF this]
    show ?thesis using dt Inr nn by (cases x) (simp_all add: raised_def)
  qed
qed


lemma successful_count:
  "\<forall>r \<in> set rs. \<not> raised r \<Longrightarrow>
     length (successful_files rs) = length rs - length (filter returned_no_file rs)
     \<and> length (filter returned_no_file rs) \<le> length rs"
proof (induction rs)
  case Nil
  then show ?case by simp
next
  case (Cons r rs)
  then have IH: "length (successful_files rs) = length rs - length (filter returned_no_file rs)"
    and le: "length (filter returned_no_file rs) \<le> length rs" by auto
  show ?case
  proof (cases r)
    case (Inl e)
    then show ?thesis using Cons.prems by (simp add: raised_def)
  next
    case (Inr x)
    then show ?thesis
      using IH unfolding returned_no_file_def
      by (cases x) (auto simp: Suc_diff_le le_SucI)
  qed
qed


subsection \<open>Deleting files\<close>

lemma map_of_filter_keep:
  "P k \<Longrightarrow> map_of (filter (\<lambda>e. P (fst e)) xs) k = map_of xs k"
  by (induction xs) auto

lemma map_of_filter_drop:
  "\<not> P k \<Longrightarrow> map_of (filter (\<lambda>e. P (fst e)) xs) k = None"
  by (induction xs) auto

lemma node_at_filter_keep:
  "P k \<Longrightarrow> node_at (filter (\<lambda>e. P (fst e)) xs) k = node_at xs k"
  by (simp add: node_at_def map_of_filter_keep)

text \<open>
  Removing entries that are not directories leaves every path that resolved resolving to
  the same place. Where a path leads depends on its components only; the file system
  decides whether the way is there.
\<close>

lemma walk_filter:
  assumes "\<And>k. \<not> P k \<Longrightarrow> node_at fsys k \<noteq> Some Dir"
  shows "walk fsys cur p = Inr q \<Longrightarrow> walk (filter (\<lambda>e. P (fst e)) fsys) cur p = Inr q"
proof (induction p arbitrary: cur)
  case Nil
  then show ?case by simp
next
  case (Cons c cs)
  show ?case
  proof (cases "c = ''..'' \<or> NAME_MAX < length c \<or> cs = []")
    case True
    then show ?thesis using Cons by (auto split: if_splits)
  next
    case False
    then have d: "node_at fsys (cur @ [c]) = Some Dir"
      using Cons.prems by (auto split: option.splits node.splits)
    then have "P (cur @ [c])" using assms by blast
    then have "node_at (filter (\<lambda>e. P (fst e)) fsys) (cur @ [c]) = Some Dir"
      using d by (simp add: node_at_filter_keep)
    then show ?thesis using False Cons d by simp
  qed
qed

lemma resolve_filter:
  assumes "\<And>k. \<not> P k \<Longrightarrow> node_at fsys k \<noteq> Some Dir"
      and "resolve fsys p = Inr q"
  shows "resolve (filter (\<lambda>e. P (fst e)) fsys) p = Inr q"
  using assms(2) walk_filter [of P fsys "[]" p q, OF assms(1)]
  by (auto simp: resolve_def split: if_splits)

lemma walk_lexical:
  "walk fsys cur p = Inr q \<Longrightarrow>
     walk fsys' cur p \<noteq> Inl OSError \<and> (\<forall>q'. walk fsys' cur p = Inr q' \<longrightarrow> q' = q)"
proof (induction p arbitrary: cur)
  case Nil
  then show ?case by simp
next
  case (Cons c cs)
  show ?case
  proof (cases "c = ''..'' \<or> NAME_MAX < length c \<or> cs = []")
    case True
    then show ?thesis using Cons by (auto split: if_splits)
  next
    case False
    then have d: "node_at fsys (cur @ [c]) = Some Dir"
      using Cons.prems by (auto split: option.splits node.splits)
    then have "walk fsys (cur @ [c]) cs = Inr q" using False Cons.prems by simp
    from Cons.IH [OF this] show ?thesis
      using False by (auto split: option.splits node.splits)
  qed
qed

lemma absent_after_removal:
  assumes "resolve fsys p = Inr p" and "node_at fsys' p = None"
  shows "path_exists fsys' p = Inr False"
proof -
  have w: "walk fsys [] p = Inr p" and n: "\<not> has_nul p" and l: "\<not> PATH_MAX \<le> path_length p"
    using assms(1) by (auto simp: resolve_def split: if_splits)
  from walk_lexical [OF w, of fsys']
  have "walk fsys' [] p \<noteq> Inl OSError" and "\<forall>q'. walk fsys' [] p = Inr q' \<longrightarrow> q' = p"
    by simp_all
  then show ?thesis
    using n l assms(2)
    by (cases "walk fsys' [] p") (auto simp: path_exists_def resolve_def)
qed

lemma unlink_all_distinct:
  "distinct files \<Longrightarrow> \<forall>f \<in> set files. regular_file fsys f \<Longrightarrow>
     unlink_all files fsys = (Inr (), filter (\<lambda>e. fst e \<notin> set files) fsys)"
proof (induction files arbitrary: fsys)
  case Nil
  then show ?case by simp
next
  case (Cons f files)
  let ?fs1 = "filter (\<lambda>e. fst e \<noteq> f) fsys"
  have rf: "regular_file fsys f" using Cons.prems(2) by simp
  then have u: "unlink fsys f = Inr ?fs1"
    by (auto simp: unlink_def regular_file_def split: option.splits node.splits)
  have nd: "\<And>k. \<not> k \<noteq> f \<Longrightarrow> node_at fsys k \<noteq> Some Dir"
    using rf by (auto simp: regular_file_def split: option.splits node.splits)
  have "\<forall>g \<in> set files. regular_file ?fs1 g"
  proof
    fix g assume g: "g \<in> set files"
    then have ne: "g \<noteq> f" using Cons.prems(1) by auto
    have rg: "regular_file fsys g" using Cons.prems(2) g by simp
    have "node_at ?fs1 g = node_at fsys g"
      using node_at_filter_keep [of "\<lambda>k. k \<noteq> f" g fsys] ne by simp
    moreover have "resolve ?fs1 g = Inr g"
      using resolve_filter [of "\<lambda>k. k \<noteq> f" fsys g g, OF nd] rg
      by (simp add: regular_file_def)
    ultimately show "regular_file ?fs1 g" using rg by (simp add: regular_file_def)
  qed
  moreover have "distinct files" using Cons.prems(1) by simp
  ultimately have "unlink_all files ?fs1 = (Inr (), filter (\<lambda>e. fst e \<notin> set files) ?fs1)"
    by (rule Cons.IH [rotated])
  moreover have "filter (\<lambda>e. fst e \<notin> set files) ?fs1 = filter (\<lambda>e. fst e \<notin> set (f # files)) fsys"
    by (induction fsys) auto
  ultimately show ?case using u by simp
qed

subsection \<open>The result of \<^verbatim>\<open>download_playlist\<close>\<close>

lemma archive_returns:
  "archive u files z dir w = (Inr r, w') \<Longrightarrow> r = Some z"
  by (auto simp: archive_def split: prod.splits sum.splits)

text \<open>
  Take a playlist of \<open>N\<close> tracks whose tasks all returned, \<open>K\<close> of them without a
  file, with a pool of positive width. The loop collects exactly \<open>N - K\<close> files. The
  result is \<^verbatim>\<open>None\<close> when \<open>N - K\<close> is zero, and the playlist directory when it is at
  least one and no archive was asked for. Whenever a result is returned at all, it is a
  path exactly when \<open>N - K\<close> is at least one.
\<close>

lemma playlist_result_counts:
  assumes "prepare ydl u playlist_url output_dir w = (Inr (pl, name, dir), w1)"
      and "0 < max_workers"
      and "done_order = completion_order sched (playlist_tracks pl) (length (playlist_tracks pl))"
      and "as_completed_loop ydl u min_delay max_delay draws done_order dir [] w1 = (Inr files, w2)"
      and "N = length (playlist_tracks pl)"
      and "K = length (filter returned_no_file
                         (task_results ydl u min_delay max_delay draws done_order dir w1))"
  shows "length files = N - K \<and> K \<le> N
       \<and> (N - K = 0 \<longrightarrow>
            fst (download_playlist ydl u sched draws playlist_url output_dir max_workers
                   min_delay max_delay should_zip w) = Inr None)
       \<and> (1 \<le> N - K \<and> \<not> should_zip \<longrightarrow>
            fst (download_playlist ydl u sched draws playlist_url output_dir max_workers
                   min_delay max_delay should_zip w) = Inr (Some dir))
       \<and> (\<forall>r. fst (download_playlist ydl u sched draws playlist_url output_dir max_workers
                      min_delay max_delay should_zip w) = Inr r \<longrightarrow> (r \<noteq> None \<longleftrightarrow> 1 \<le> N - K))"
proof -
  let ?rs = "task_results ydl u min_delay max_delay draws done_order dir w1"
  let ?dp = "download_playlist ydl u sched draws playlist_url output_dir max_workers
               min_delay max_delay should_zip w"
  have n: "length ?rs = N"
    using assms(3,5) by (simp add: length_task_results length_completion_order)
  from loop_collects [OF assms(4)]
  have f: "files = successful_files ?rs" and nr: "\<forall>r \<in> set ?rs. \<not> raised r"
    by simp_all
  from successful_count [OF nr]
  have len: "length files = N - K" and le: "K \<le> N"
    using f n assms(6) by simp_all
  have dp: "?dp = finish u should_zip output_dir name dir files w2"
    using assms(1,2,3,4) by (simp add: download_playlist_def)
  have empty: "files = [] \<longleftrightarrow> N - K = 0"
    using len by auto
  have zero: "N - K = 0 \<longrightarrow> fst ?dp = Inr None"
    using empty dp by (simp add: finish_def)
  have dir: "1 \<le> N - K \<and> \<not> should_zip \<longrightarrow> fst ?dp = Inr (Some dir)"
    using empty dp by (auto simp: finish_def)
  have iff: "\<forall>r. fst ?dp = Inr r \<longrightarrow> (r \<noteq> None \<longleftrightarrow> 1 \<le> N - K)"
  proof (intro allI impI)
    fix r assume r: "fst ?dp = Inr r"
    show "r \<noteq> None \<longleftrightarrow> 1 \<le> N - K"
    proof (cases "files = []")
      case True
      then show ?thesis using r dp len by (simp add: finish_def)
    next
      case False
      then have pos: "1 \<le> N - K" using len by (cases files) auto
      show ?thesis
      proof (cases should_zip)
        case True
        obtain x w' where
          a: "archive u files (joinpath output_dir (name @ ''.zip'')) dir w2 = (x, w')"
          by (cases "archive u files (joinpath output_dir (name @ ''.zip'')) dir w2")
        then have "x = Inr r" using r dp False True by (simp add: finish_def)
        then have "r = Some (joinpath output_dir (name @ ''.zip''))"
          using a archive_returns by blast
        then show ?thesis using pos by simp
      next
        case no: False
        then show ?thesis using r dp False pos by (auto simp: finish_def)
      qed
    qed
  qed
  show ?thesis using len le zero dir iff by blast
qed

text \<open>
  With an archive asked for and at least one file collected: if \<^verbatim>\<open>create_zip\<close>
  succeeds, the collected paths are pairwise distinct and each names a regular file once
  the archive is written, and the playlist directory names a directory that can be
  removed, then every collected file is deleted, the playlist directory is removed with
  all it holds, nothing else changes, and the archive path is returned.
\<close>

lemma archive_replaces_files:
  assumes "prepare ydl u playlist_url output_dir w = (Inr (pl, name, dir), w1)"
      and "0 < max_workers"
      and "done_order = completion_order sched (playlist_tracks pl) (length (playlist_tracks pl))"
      and "as_completed_loop ydl u min_delay max_delay draws done_order dir [] w1 = (Inr files, w2)"
      and "files \<noteq> []"
      and "zip_filename = joinpath output_dir (name @ ''.zip'')"
      and "create_zip u files zip_filename dir (fs w2) = (Inr (), fs3)"
      and "distinct files"
      and "\<forall>f \<in> set files. regular_file fs3 f"
      and "removable_dir fs3 dir"
  shows "\<exists>fs4. download_playlist ydl u sched draws playlist_url output_dir max_workers
                 min_delay max_delay True w
                 = (Inr (Some zip_filename), w2\<lparr>fs := fs4\<rparr>)
           \<and> fs4 = filter (\<lambda>e. fst e \<notin> set files \<and> \<not> prefix dir (fst e)) fs3
           \<and> (\<forall>f \<in> set files. path_exists fs4 f = Inr False)
           \<and> path_exists fs4 dir = Inr False"
proof -
  let ?fs3' = "filter (\<lambda>e. fst e \<notin> set files) fs3"
  let ?fs4 = "filter (\<lambda>e. fst e \<noteq> dir) (filter (\<lambda>e. \<not> strict_prefix dir (fst e)) ?fs3')"
  let ?keep = "\<lambda>k. k \<notin> set files \<and> \<not> prefix dir k"
  have ua: "unlink_all files fs3 = (Inr (), ?fs3')"
    using assms(8,9) by (rule unlink_all_distinct)
  have nd: "\<And>k. \<not> k \<notin> set files \<Longrightarrow> node_at fs3 k \<noteq> Some Dir"
    using assms(9) by (auto simp: regular_file_def split: option.splits node.splits)
  have dir: "resolve fs3 dir = Inr dir" "dir \<noteq> []" "last dir \<noteq> ''..''"
            "node_at fs3 dir = Some Dir"
    using assms(10) by (simp_all add: removable_dir_def)
  have "dir \<notin> set files" using nd dir(4) by blast
  then have "node_at ?fs3' dir = Some Dir"
    using node_at_filter_keep [of "\<lambda>k. k \<notin> set files" dir fs3] dir(4) by simp
  moreover have "resolve ?fs3' dir = Inr dir"
    using resolve_filter [of "\<lambda>k. k \<notin> set files" fs3 dir dir, OF nd dir(1)] .
  ultimately have rm: "rmtree ?fs3' dir = (Inr (), ?fs4)"
    using dir(2,3) by (simp add: rmtree_def Let_def)
  have ar: "archive u files zip_filename dir w2 = (Inr (Some zip_filename), w2\<lparr>fs := ?fs4\<rparr>)"
    using assms(7) ua rm by (simp add: archive_def)
  have dp: "download_playlist ydl u sched draws playlist_url output_dir max_workers
              min_delay max_delay True w
              = (Inr (Some zip_filename), w2\<lparr>fs := ?fs4\<rparr>)"
    using assms(1,2,3,4,5,6) ar by (simp add: download_playlist_def finish_def)
  have eq: "?fs4 = filter (\<lambda>e. ?keep (fst e)) fs3"
    by (induction fs3) (auto simp: strict_prefix_def)
  have gone: "\<forall>f \<in> set files. path_exists ?fs4 f = Inr False"
  proof
    fix f assume f: "f \<in> set files"
    then have rf: "regular_file fs3 f" using assms(9) by simp
    then have "f \<noteq> []" by (auto simp: regular_file_def node_at_def)
    then have "node_at (filter (\<lambda>e. ?keep (fst e)) fs3) f = None"
      using map_of_filter_drop [of ?keep f fs3] f by (simp add: node_at_def)
    then show "path_exists ?fs4 f = Inr False"
      using absent_after_removal [of fs3 f] rf eq by (simp add: regular_file_def)
  qed
  have "node_at (filter (\<lambda>e. ?keep (fst e)) fs3) dir = None"
    using map_of_filter_drop [of ?keep dir fs3] dir(2) by (simp add: node_at_def)
  then have nodir: "path_exists ?fs4 dir = Inr False"
    using absent_after_removal [of fs3 dir] dir(1) eq by simp
  show ?thesis using dp eq gone nodir by blast
qed

subsection \<open>Sample runs\<close>

text \<open>
  A playlist of three tracks, the second of them blocked, with the third finishing first.
  The random source proposes 7, 1 and 12 for delays between 3 and 10.
\<close>

lemma sample_prepare:
  "prepare
     (sample_ydl [sample_entry ''1'' ''a'', sample_entry ''2'' ''b'', sample_entry ''3'' ''c'']
        [''sc:2''])
     sample_utils ''sc:mix'' [''out''] empty_world
   = (Inr (\<lparr>playlist_id = PStr ''77'', playlist_title = PStr ''mix'',
            playlist_tracks = [sample_track ''1'' ''a'', sample_track ''2'' ''b'',
                               sample_track ''3'' ''c'']\<rparr>,
           ''mix'', [''out'', ''mix'']),
      mix_world)"
  by (simp add: sample_defs path_defs fs_defs model_defs)

lemma sample_order:
  "[sample_track ''3'' ''c'', sample_track ''1'' ''a'', sample_track ''2'' ''b'']
   = completion_order [2]
       (playlist_tracks
          \<lparr>playlist_id = PStr ''77'', playlist_title = PStr ''mix'',
            playlist_tracks = [sample_track ''1'' ''a'', sample_track ''2'' ''b'',
                               sample_track ''3'' ''c'']\<rparr>)
       (length (playlist_tracks
          \<lparr>playlist_id = PStr ''77'', playlist_title = PStr ''mix'',
            playlist_tracks = [sample_track ''1'' ''a'', sample_track ''2'' ''b'',
                               sample_track ''3'' ''c'']\<rparr>))"
  by (simp add: nth_Cons')

lemma sample_loop:
  "as_completed_loop
     (sample_ydl [sample_entry ''1'' ''a'', sample_entry ''2'' ''b'', sample_entry ''3'' ''c'']
        [''sc:2''])
     sample_utils 3 10 [7, 1, 12]
     [sample_track ''3'' ''c'', sample_track ''1'' ''a'', sample_track ''2'' ''b'']
     [''out'', ''mix''] [] mix_world
   = (Inr [[''out'', ''mix'', ''c.mp3''], [''out'', ''mix'', ''a.mp3'']],
      \<lparr>fs = [([''out''], Dir), ([''out'', ''mix''], Dir),
             ([''out'', ''mix'', ''c.mp3''], Media), ([''out'', ''mix'', ''a.mp3''], Media)],
        trace = [Log Debug, Sleep Half_second, Stat [''out'', ''mix'', ''c.mp3''], Log Info,
                 Sleep (Drawn 7), Sleep Half_second, Stat [''out'', ''mix'', ''a.mp3''],
                 Log Info, Sleep (Drawn 3), Log Info, Sleep (Drawn 10)]\<rparr>)"
  by (simp add: sample_defs path_defs fs_defs model_defs)

lemma sample_results:
  "task_results
     (sample_ydl [sample_entry ''1'' ''a'', sample_entry ''2'' ''b'', sample_entry ''3'' ''c'']
        [''sc:2''])
     sample_utils 3 10 [7, 1, 12]
     [sample_track ''3'' ''c'', sample_track ''1'' ''a'', sample_track ''2'' ''b'']
     [''out'', ''mix''] mix_world
   = [Inr (Some [''out'', ''mix'', ''c.mp3'']), Inr (Some [''out'', ''mix'', ''a.mp3'']),
      Inr None]"
  by (simp add: sample_defs path_defs fs_defs model_defs)

lemma playlist_result_counts_sample:
  "fst (download_playlist
          (sample_ydl [sample_entry ''1'' ''a'', sample_entry ''2'' ''b'', sample_entry ''3'' ''c'']
             [''sc:2''])
          sample_utils [2] [7, 1, 12] ''sc:mix'' [''out''] 5 3 10 False empty_world)
     = Inr (Some [''out'', ''mix''])
   \<and> length [[''out'', ''mix'', ''c.mp3''], [''out'', ''mix'', ''a.mp3'']] = 3 - (1::nat)"
proof -
  have n: "(3::nat) = length (playlist_tracks
          \<lparr>playlist_id = PStr ''77'', playlist_title = PStr ''mix'',
            playlist_tracks = [sample_track ''1'' ''a'', sample_track ''2'' ''b'',
                               sample_track ''3'' ''c'']\<rparr>)"
    by simp
  have k: "(1::nat) = length (filter returned_no_file
             (task_results
                (sample_ydl [sample_entry ''1'' ''a'', sample_entry ''2'' ''b'',
                             sample_entry ''3'' ''c''] [''sc:2''])
                sample_utils 3 10 [7, 1, 12]
                [sample_track ''3'' ''c'', sample_track ''1'' ''a'', sample_track ''2'' ''b'']
                [''out'', ''mix''] mix_world))"
    unfolding sample_results by (simp add: returned_no_file_def)
  have mw: "(0::int) < 5" by simp
  show ?thesis
    using playlist_result_counts [OF sample_prepare mw sample_order sample_loop n k, of False]
    by simp
qed

lemma archive_replaces_files_sample:
  "download_playlist
     (sample_ydl [sample_entry ''1'' ''a'', sample_entry ''2'' ''b'', sample_entry ''3'' ''c'']
        [''sc:2''])
     sample_utils [2] [7, 1, 12] ''sc:mix'' [''out''] 5 3 10 True empty_world
   = (Inr (Some [''out'', ''mix.zip'']),
      \<lparr>fs = [([''out''], Dir),
             ([''out'', ''mix.zip''],
              Archive [[''out'', ''mix'', ''c.mp3''], [''out'', ''mix'', ''a.mp3'']])],
        trace = [Log Debug, Sleep Half_second, Stat [''out'', ''mix'', ''c.mp3''], Log Info,
                 Sleep (Drawn 7), Sleep Half_second, Stat [''out'', ''mix'', ''a.mp3''],
                 Log Info, Sleep (Drawn 3), Log Info, Sleep (Drawn 10)]\<rparr>)"
proof -
  let ?files = "[[''out'', ''mix'', ''c.mp3''], [''out'', ''mix'', ''a.mp3'']]"
  let ?fs2 = "[([''out''], Dir), ([''out'', ''mix''], Dir),
               ([''out'', ''mix'', ''c.mp3''], Media), ([''out'', ''mix'', ''a.mp3''], Media)]"
  let ?fs3 = "?fs2 @ [([''out'', ''mix.zip''], Archive ?files)]"
  have ne: "?files \<noteq> []" by simp
  have z: "[''out'', ''mix.zip''] = joinpath [''out''] (''mix'' @ ''.zip'')"
    by (simp add: path_defs)
  have cz: "create_zip sample_utils ?files [''out'', ''mix.zip''] [''out'', ''mix'']
              (fs \<lparr>fs = ?fs2,
                   trace = [Log Debug, Sleep Half_second, Stat [''out'', ''mix'', ''c.mp3''],
                            Log Info, Sleep (Drawn 7), Sleep Half_second,
                            Stat [''out'', ''mix'', ''a.mp3''], Log Info, Sleep (Drawn 3),
                            Log Info, Sleep (Drawn 10)]\<rparr>)
            = (Inr (), ?fs3)"
    by (simp add: sample_defs)
  have d: "distinct ?files" by simp
  have f: "\<forall>f \<in> set ?files. regular_file ?fs3 f"
    by (simp add: regular_file_def fs_defs)
  have dd: "removable_dir ?fs3 [''out'', ''mix'']"
    by (simp add: removable_dir_def fs_defs)
  have mw: "(0::int) < 5" by simp
  from archive_replaces_files [OF sample_prepare mw sample_order sample_loop ne z cz d f dd]
  show ?thesis by auto
qed

subsection \<open>The claims about the playlist\<close>

text \<open>
  Claim C6. If the metadata query for the playlist raises, \<^verbatim>\<open>get_playlist_info\<close>
  raises the same exception, and \<^verbatim>\<open>download_playlist\<close> ends with an exception and no
  result: the extractor's own exception once the output directory could be made.
\<close>

theorem playlist_extraction_failure_propagates:
  assumes "extract_info ydl (PStr playlist_url) = Inl e"
  shows "get_playlist_info ydl playlist_url = Inl e
       \<and> (\<exists>e' w'. download_playlist ydl u sched draws playlist_url output_dir max_workers
                     min_delay max_delay should_zip w = (Inl e', w'))
       \<and> (\<forall>fs1. mkdir_parents (fs w) output_dir = (Inr (), fs1) \<longrightarrow>
             download_playlist ydl u sched draws playlist_url output_dir max_workers
               min_delay max_delay should_zip w = (Inl e, emit (Log Debug) (w\<lparr>fs := fs1\<rparr>)))"
proof -
  have g: "get_playlist_info ydl playlist_url = Inl e"
    using assms by (simp add: get_playlist_info_def)
  have p: "\<exists>e' w'. prepare ydl u playlist_url output_dir w = (Inl e', w')"
    using g by (auto simp: prepare_def split: prod.splits sum.splits)
  have q: "\<forall>fs1. mkdir_parents (fs w) output_dir = (Inr (), fs1) \<longrightarrow>
             prepare ydl u playlist_url output_dir w = (Inl e, emit (Log Debug) (w\<lparr>fs := fs1\<rparr>))"
    using g by (simp add: prepare_def)
  show ?thesis
    using g p q by (auto simp: download_playlist_def)
qed

theorem playlist_extraction_failure_propagates_witness:
  "get_playlist_info (sample_ydl [] []) ''sc:private'' = Inl (ExtractorError ''unavailable'')
   \<and> download_playlist (sample_ydl [] []) sample_utils [] [] ''sc:private'' [''out''] 5 3 10
        False empty_world
     = (Inl (ExtractorError ''unavailable''),
        \<lparr>fs = [([''out''], Dir)], trace = [Log Debug]\<rparr>)"
proof -
  have h: "extract_info (sample_ydl [] []) (PStr ''sc:private'')
             = Inl (ExtractorError ''unavailable'')"
    by (simp add: sample_ydl_def)
  have m: "mkdir_parents (fs empty_world) [''out''] = (Inr (), [([''out''], Dir)])"
    by (simp add: fs_defs empty_world_def)
  show ?thesis
    using playlist_extraction_failure_propagates
            [OF h, of sample_utils "[]" "[]" "[''out'']" 5 3 10 False empty_world] m
    by (simp add: emit_def empty_world_def)
qed





lemma raised_simps [simp]: "raised (Inl e) = True" "raised (Inr x) = False"
  by (simp_all add: raised_def)






text \<open>
  Claim C4. The claim is that, with an archive asked for and at least one file collected,
  the originals are deleted, the playlist directory is removed and the archive path is
  returned. It fails on a playlist with two tracks of the same title: both tasks return the
  same path, the loop collects it twice, the archive is written, the first
  \<^verbatim>\<open>unlink\<close> deletes the file and the second raises. No path is returned and the
  playlist directory stays.
\<close>

theorem same_title_breaks_archive:
  "as_completed_loop (sample_ydl [sample_entry ''1'' ''a'', sample_entry ''2'' ''a''] [])
     sample_utils 3 10 [] [sample_track ''1'' ''a'', sample_track ''2'' ''a'']
     [''out'', ''mix''] [] mix_world
   = (Inr [[''out'', ''mix'', ''a.mp3''], [''out'', ''mix'', ''a.mp3'']],
      \<lparr>fs = [([''out''], Dir), ([''out'', ''mix''], Dir),
             ([''out'', ''mix'', ''a.mp3''], Media)],
        trace = [Log Debug, Sleep Half_second, Stat [''out'', ''mix'', ''a.mp3''], Log Info,
                 Sleep (Drawn 3), Sleep Half_second, Stat [''out'', ''mix'', ''a.mp3''],
                 Log Info, Sleep (Drawn 3)]\<rparr>)
   \<and> download_playlist (sample_ydl [sample_entry ''1'' ''a'', sample_entry ''2'' ''a''] [])
        sample_utils [] [] ''sc:mix'' [''out''] 5 3 10 True empty_world
     = (Inl FileNotFoundError,
        \<lparr>fs = [([''out''], Dir), ([''out'', ''mix''], Dir),
               ([''out'', ''mix.zip''],
                Archive [[''out'', ''mix'', ''a.mp3''], [''out'', ''mix'', ''a.mp3'']])],
          trace = [Log Debug, Sleep Half_second, Stat [''out'', ''mix'', ''a.mp3''], Log Info,
                   Sleep (Drawn 3), Sleep Half_second, Stat [''out'', ''mix'', ''a.mp3''],
                   Log Info, Sleep (Drawn 3)]\<rparr>)"
  by (simp add: sample_defs path_defs fs_defs model_defs nth_Cons')

text \<open>
  Claim C2. The claim is that \<open>N\<close> tracks of which \<open>K\<close> return no file give a result
  that is not \<^verbatim>\<open>None\<close> exactly when \<open>N - K\<close> is at least one, with \<open>N - K\<close> files
  collected. The count holds, and so does the equivalence whenever a result is returned. But
  with three tracks, the second blocked and the other two of the same title, and an archive
  asked for, two tasks out of three return a file and \<^verbatim>\<open>download_playlist\<close> returns
  nothing: it raises, for the reason given under C4.
\<close>

theorem successes_without_result:
  "task_results
     (sample_ydl [sample_entry ''1'' ''a'', sample_entry ''2'' ''b'', sample_entry ''3'' ''a'']
        [''sc:2''])
     sample_utils 3 10 []
     [sample_track ''3'' ''a'', sample_track ''1'' ''a'', sample_track ''2'' ''b'']
     [''out'', ''mix''] mix_world
   = [Inr (Some [''out'', ''mix'', ''a.mp3'']), Inr (Some [''out'', ''mix'', ''a.mp3'']),
      Inr None]
   \<and> fst (download_playlist
            (sample_ydl [sample_entry ''1'' ''a'', sample_entry ''2'' ''b'',
                         sample_entry ''3'' ''a''] [''sc:2''])
            sample_utils [2] [] ''sc:mix'' [''out''] 5 3 10 True empty_world)
     = Inl FileNotFoundError"
  by (simp add: sample_defs path_defs fs_defs model_defs nth_Cons')

text \<open>
  An exception of \<^verbatim>\<open>create_zip\<close> itself is not caught either: the call ends with it,
  and the downloaded file stays where it was.
\<close>

lemma archive_failure_propagates:
  "download_playlist (sample_ydl [sample_entry ''1'' ''a''] [])
     (sample_utils\<lparr>create_zip := disk_full\<rparr>) [] [] ''sc:mix'' [''out''] 5 3 10 True
     empty_world
   = (Inl (ArchiveError ''disk full''),
      \<lparr>fs = [([''out''], Dir), ([''out'', ''mix''], Dir),
             ([''out'', ''mix'', ''a.mp3''], Media)],
        trace = [Log Debug, Sleep Half_second, Stat [''out'', ''mix'', ''a.mp3''], Log Info,
                 Sleep (Drawn 3)]\<rparr>)"
  by (simp add: sample_defs path_defs fs_defs model_defs nth_Cons')

end
